theory Spec2Isabelle
  imports Main "HOL-Library.Word" "HOL-Library.Sublist"
begin

unbundle bit_operations_syntax

section \<open>Data model of main.go\<close>

text \<open>
  The program reconstructs HTTP transactions from captured TCP traffic. Its own code is
  the stream factory (\<open>New\<close>, \<open>LogPacketSize\<close>) and the two reader goroutines
  (\<open>runOut\<close>, \<open>runIn\<close>). The libraries it calls (gopacket, tcpreader, net/http) and the
  storage layer are its environment: what they return is an input of the model, what the
  program asks of them is an event of the trace.
\<close>

type_synonym uint64 = "64 word"
type_synonym int64 = "64 word"
type_synonym uint32 = "32 word"
type_synonym uint16 = "16 word"
type_synonym uint8 = "8 word"

text \<open>\<open>time.Time\<close> values, as \<open>time.Now()\<close> returns them.\<close>

type_synonym time = nat

text \<open>Go \<open>error\<close> values: the code tells \<open>io.EOF\<close> from every other error, which
  it only prints. A nil error is \<open>None\<close> of \<open>error option\<close>; a call that returns a value
  or an error is \<open>error + 'a\<close>.\<close>

datatype error = io_EOF | Err string

text \<open>\<open>gopacket.Flow\<close>: an endpoint type (\<open>typ\<close>) and the two endpoints' bytes. Go compares flows
  with \<open>==\<close> on the struct, which is equality of the record.\<close>

record Flow =
  ftyp :: nat
  src :: "uint8 list"
  dst :: "uint8 list"

definition Reverse :: "Flow \<Rightarrow> Flow" where
  "Reverse f = f\<lparr>src := dst f, dst := src f\<rparr>"

text \<open>\<open>TCPStream\<close> (lines 51-58). The fields \<open>readStream\<close> and \<open>storage\<close> are handles
  to the environment: bytes read arrive as read results, storage calls leave as events.\<close>

record 'rq TCPStream =
  netFlow :: Flow
  tcpFlow :: Flow
  bidikey :: uint64
  closed :: bool
  reqInProgress :: "'rq option"

text \<open>A buffered Go channel \<open>make(chan T, n)\<close>: a send blocks while \<open>n\<close> values are
  buffered, a receive blocks while none is, values leave in the order they entered.
  Blocking is the result \<open>None\<close>: the operation cannot take place in this state.\<close>

record 'a chan =
  cap :: nat
  buf :: "'a list"

definition make_chan :: "nat \<Rightarrow> 'a chan" where
  "make_chan n = \<lparr>cap = n, buf = []\<rparr>"

definition chan_send :: "'a \<Rightarrow> 'a chan \<Rightarrow> 'a chan option" where
  "chan_send x c = (if length (buf c) < cap c then Some (c\<lparr>buf := buf c @ [x]\<rparr>) else None)"

definition chan_recv :: "'a chan \<Rightarrow> ('a \<times> 'a chan) option" where
  "chan_recv c = (case buf c of [] \<Rightarrow> None | x # xs \<Rightarrow> Some (x, c\<lparr>buf := xs\<rparr>))"

text \<open>\<open>BidiStream\<close> (lines 44-48); \<open>in\<close> and \<open>out\<close> are pointers that may be nil.\<close>

record 'rq BidiStream =
  key :: uint64
  bds_in :: "'rq TCPStream option"
  bds_out :: "'rq TCPStream option"
  requests :: "'rq chan"

text \<open>\<open>http.Response\<close> as \<open>http.ReadResponse(buf, req)\<close> builds it: what was parsed off
  the stream, and the request it was read against (the field \<open>Request\<close>).\<close>

record ('rq, 'rs) Response =
  parsed :: 'rs
  Request :: 'rq

datatype goroutine = RunOut uint64 | RunIn uint64

text \<open>The \<open>Body\<close> of a parsed request or response.\<close>

datatype ('rq, 'rs) body = RequestBody 'rq | ResponseBody "('rq, 'rs) Response"

text \<open>The effects of the program, in the order it performs them: the calls to the storage
  layer (first six), \<open>log.Println\<close> with the message and the error,
  \<open>tcpreader.DiscardBytesToFirstError\<close> on the stream's buffer (\<open>DiscardBytesToFirstError\<close>)
  and the read-and-drop of a body by tcpreader (\<open>DiscardBody\<close>), \<open>Body.Close()\<close>,
  the operations on the \<open>requests\<close> channel, and \<open>go\<close>.\<close>

datatype ('rq, 'rs) event =
    OpenTCPConnection uint64 time
  | CloseTCPConnection uint64 time
  | SentRequest uint64 int64 time 'rq
  | ReceivedResponse uint64 int64 time "('rq, 'rs) Response"
  | IncomingTCPPacket uint64 uint32
  | OutgoingTCPPacket uint64 uint32
  | LogPrintln string error
  | DiscardBytesToFirstError
  | DiscardBody "('rq, 'rs) body"
  | BodyClose "('rq, 'rs) body"
  | ChanSend 'rq
  | ChanRecv 'rq
  | Go goroutine

text \<open>\<open>httpStreamFactory\<close> (lines 161-165), with the trace of what it has done.\<close>

record ('rq, 'rs) httpStreamFactory =
  bidiStreams :: "uint64 \<rightharpoonup> 'rq BidiStream"
  factory_closed :: bool
  ftrace :: "('rq, 'rs) event list"

definition NewStreamFactory :: "('rq, 'rs) httpStreamFactory" where
  "NewStreamFactory = \<lparr>bidiStreams = Map.empty, factory_closed = False, ftrace = []\<rparr>"

section \<open>Connection identity and registry\<close>

text \<open>Lines 181 and 221: \<open>key := netFlow.FastHash() ^ tcpFlow.FastHash()\<close>.
  \<open>FastHash\<close> is gopacket's; it is the parameter \<open>fastHash\<close>.\<close>

definition flowKey :: "(Flow \<Rightarrow> uint64) \<Rightarrow> Flow \<Rightarrow> Flow \<Rightarrow> uint64" where
  "flowKey fastHash nf tf = fastHash nf XOR fastHash tf"

text \<open>\<open>httpStreamFactory.New\<close> (lines 172-214). \<open>now\<close> is what \<open>time.Now()\<close> returns and
  \<open>openErr\<close> what \<open>OpenTCPConnection\<close> returns, both read only in the else branch. The
  returned \<open>&hstream.readStream\<close> is the handle the assembler writes bytes to.\<close>

definition New ::
  "(Flow \<Rightarrow> uint64) \<Rightarrow> Flow \<Rightarrow> Flow \<Rightarrow> time \<Rightarrow> error option \<Rightarrow>
   ('rq, 'rs) httpStreamFactory \<Rightarrow> ('rq, 'rs) httpStreamFactory" where
  "New fastHash nf tf now openErr h =
     (let k = flowKey fastHash nf tf;
          hstream = \<lparr>netFlow = nf, tcpFlow = tf, bidikey = k, closed = False,
                     reqInProgress = None\<rparr>
      in case bidiStreams h k of
           None \<Rightarrow>
             h\<lparr>bidiStreams := (bidiStreams h)(k \<mapsto>
                  \<lparr>key = k, bds_in = None, bds_out = Some hstream, requests = make_chan 100\<rparr>),
               ftrace := ftrace h @ [Go (RunOut k)]\<rparr>
         | Some bds \<Rightarrow>
             h\<lparr>bidiStreams := (bidiStreams h)(k \<mapsto> bds\<lparr>bds_in := Some hstream\<rparr>),
               ftrace := ftrace h @ [OpenTCPConnection k now]
                 @ (case openErr of None \<Rightarrow> [] | Some e \<Rightarrow> [LogPrintln ''Error storing connection'' e])
                 @ [Go (RunIn k)]\<rparr>)"

text \<open>An order-independent flow hash in the manner of gopacket's \<open>FastHash\<close> (FNV-1a of
  each endpoint, combined commutatively): an instance of the parameter \<open>fastHash\<close>.\<close>

definition fnvHash :: "uint8 list \<Rightarrow> uint64" where
  "fnvHash bs = foldl (\<lambda>h b. (h XOR ucast b) * 1099511628211) 14695981039346656037 bs"

definition fnvFastHash :: "Flow \<Rightarrow> uint64" where
  "fnvFastHash f = ((fnvHash (src f) + fnvHash (dst f)) XOR of_nat (ftyp f)) * 1099511628211"

section \<open>Packet accounting\<close>

text \<open>What \<open>LogPacketSize\<close> reads of a \<open>gopacket.Packet\<close>: the flows of its network and
  transport layers (\<open>NetworkLayer()\<close> and \<open>TransportLayer()\<close> return nil when the packet has
  no such layer), and the IPv4 and TCP layers (\<open>packet.Layer\<close> returns nil likewise).\<close>

record IPv4 =
  Length :: uint16
  IHL :: uint8

record TCP =
  DataOffset :: uint8

record Packet =
  NetworkLayer :: "Flow option"
  TransportLayer :: "Flow option"
  ipv4Layer :: "IPv4 option"
  tcpLayer :: "TCP option"

text \<open>How a call ends other than by returning: a nil dereference, or \<open>panic(err)\<close>.\<close>

datatype fault = NilPointerDereference | Panic error

text \<open>Line 234, in \<open>uint16\<close> arithmetic, then widened to \<open>uint32\<close>.\<close>

definition payloadLength :: "IPv4 \<Rightarrow> TCP \<Rightarrow> uint32" where
  "payloadLength ipv4 tcp =
     ucast (Length ipv4 - (ucast (IHL ipv4) :: uint16) * 4 - (ucast (DataOffset tcp) :: uint16) * 4)"

text \<open>\<open>httpStreamFactory.LogPacketSize\<close> (lines 218-249). \<open>storeErr\<close> is what the storage
  call returns. The result is the fault the call ended with, if any, and the factory.\<close>

definition LogPacketSize ::
  "(Flow \<Rightarrow> uint64) \<Rightarrow> Packet \<Rightarrow> error option \<Rightarrow>
   ('rq, 'rs) httpStreamFactory \<Rightarrow> fault option \<times> ('rq, 'rs) httpStreamFactory" where
  "LogPacketSize fastHash packet storeErr h =
     (case NetworkLayer packet of
        None \<Rightarrow> (Some NilPointerDereference, h)
      | Some nf \<Rightarrow>
     (case TransportLayer packet of
        None \<Rightarrow> (Some NilPointerDereference, h)
      | Some tf \<Rightarrow>
     (let k = flowKey fastHash nf tf in
      case bidiStreams h k of
        None \<Rightarrow> (None, h)
      | Some bds \<Rightarrow>
     (case bds_in bds of
        None \<Rightarrow> (None, h)
      | Some inb \<Rightarrow>
     (case bds_out bds of
        None \<Rightarrow> (None, h)
      | Some outb \<Rightarrow>
     (case ipv4Layer packet of
        None \<Rightarrow> (Some NilPointerDereference, h)
      | Some ipv4 \<Rightarrow>
     (case tcpLayer packet of
        None \<Rightarrow> (Some NilPointerDereference, h)
      | Some tcp \<Rightarrow>
     (let n = payloadLength ipv4 tcp;
          call = (if netFlow inb = nf then IncomingTCPPacket k n else OutgoingTCPPacket k n)
      in (map_option Panic storeErr, h\<lparr>ftrace := ftrace h @ [call]\<rparr>)))))))))"

section \<open>The reader goroutines\<close>

text \<open>
  \<open>runOut\<close> and \<open>runIn\<close> of one connection run concurrently and share the channel
  \<open>bds.requests\<close>, the storage layer, the log and the \<open>closed\<close> flags that \<open>main\<close> sets.
  Each goroutine is a program counter over the statements between two of its effects, with
  its local \<open>reqID\<close>; an action is one such statement together with what the environment
  returns to it. A statement that blocks (a send on the full channel, a receive on the
  empty one) or that is not the goroutine's next one has no successor state.
\<close>

datatype 'rq out_pc =
    OutRead
  | OutClosing
  | OutFailed error
  | OutSend 'rq
  | OutStore 'rq
  | OutDone

datatype ('rq, 'rs) in_pc =
    InPeek
  | InFind
  | InRead 'rq
  | InFailed error
  | InDrain "('rq, 'rs) Response"
  | InStore "('rq, 'rs) Response"
  | InDone

record ('rq, 'rs) conn =
  hOut :: "'rq TCPStream"
  hIn :: "'rq TCPStream"
  chan :: "'rq chan"
  outPc :: "'rq out_pc"
  outReqID :: int64
  inPc :: "('rq, 'rs) in_pc"
  inReqID :: int64
  trace :: "('rq, 'rs) event list"

datatype ('rq, 'rs) action =
    Out_ReadRequest "error + 'rq"
  | Out_CloseTCPConnection time "error option"
  | Out_Report
  | Out_Send
  | Out_SentRequest time "error option"
  | In_Peek "error option"
  | In_Find
  | In_ReadResponse "error + 'rs"
  | In_Report
  | In_Discard "error option"
  | In_ReceivedResponse time "error option"
  | Main_CloseIn
  | Main_CloseOut

text \<open>
  The actions of \<open>runOut\<close>: \<open>http.ReadRequest\<close> returns (line 70), with the error or the
  request; \<open>CloseTCPConnection\<close> is called (lines 74-78), with the time and what storage
  returns; the read error is reported (lines 82-86); the request is sent on the channel
  (line 90); \<open>SentRequest\<close> is called (lines 91-97). The actions of \<open>runIn\<close>:
  \<open>buf.Peek(1)\<close> returns (line 112), with its error; the request is found (lines 120-124);
  \<open>http.ReadResponse\<close> returns (line 126); the read error is reported (lines 133-137);
  the response body is dropped and closed (lines 139-143), with the error of the drop;
  \<open>ReceivedResponse\<close> is called (lines 144-150). The actions of \<open>main\<close>: a \<open>closed\<close> flag
  is set (lines 420-425). \<open>log.Println\<close> also prints the stream's flows, which the event
  leaves out.
\<close>

text \<open>\<open>if err != nil { log.Println(msg, err) }\<close> after a storage call.\<close>

definition logErr :: "string \<Rightarrow> error option \<Rightarrow> ('rq, 'rs) event list" where
  "logErr msg e = (case e of None \<Rightarrow> [] | Some x \<Rightarrow> [LogPrintln msg x])"

text \<open>The goroutines as \<open>New\<close> starts them on a correlator: \<open>runOut\<close> on \<open>bds.out\<close>,
  \<open>runIn\<close> on \<open>bds.in\<close>, each at the top of its loop with \<open>reqID\<close> zero.\<close>

definition connOf :: "'rq BidiStream \<Rightarrow> ('rq, 'rs) conn option" where
  "connOf bds =
     (case bds_out bds of
        None \<Rightarrow> None
      | Some ho \<Rightarrow>
     (case bds_in bds of
        None \<Rightarrow> None
      | Some hi \<Rightarrow>
          Some \<lparr>hOut = ho, hIn = hi, chan = requests bds, outPc = OutRead, outReqID = 0,
                inPc = InPeek, inReqID = 0, trace = []\<rparr>))"

text \<open>\<open>TCPStream.runOut\<close> (lines 61-103): lines 70-73, 80 and 89; lines 74-78; lines 82-86;
  line 90; lines 91-97. The call \<open>tcpreader.DiscardBytesToEOF(req.Body)\<close> of line 88 is
  commented out: the only thing done to a request's body is \<open>req.Body.Close()\<close>.\<close>

fun runOut :: "('rq, 'rs) action \<Rightarrow> ('rq, 'rs) conn \<Rightarrow> ('rq, 'rs) conn option" where
  "runOut (Out_ReadRequest r) s =
     (case outPc s of
        OutRead \<Rightarrow>
          (case r of
             Inl e \<Rightarrow>
               if e = io_EOF then Some (s\<lparr>outPc := OutClosing\<rparr>)
               else Some (s\<lparr>trace := trace s @ [DiscardBytesToFirstError], outPc := OutFailed e\<rparr>)
           | Inr req \<Rightarrow>
               Some (s\<lparr>trace := trace s @ [BodyClose (RequestBody req)], outPc := OutSend req\<rparr>))
      | _ \<Rightarrow> None)"
| "runOut (Out_CloseTCPConnection now e) s =
     (case outPc s of
        OutClosing \<Rightarrow>
          Some (s\<lparr>trace := trace s @ [CloseTCPConnection (bidikey (hOut s)) now]
                       @ logErr ''Error storing connection close timestamp'' e,
                  outPc := OutDone\<rparr>)
      | _ \<Rightarrow> None)"
| "runOut Out_Report s =
     (case outPc s of
        OutFailed e \<Rightarrow>
          Some (s\<lparr>trace := trace s
                       @ (if closed (hOut s) then [] else [LogPrintln ''Error reading stream'' e]),
                  outPc := OutRead\<rparr>)
      | _ \<Rightarrow> None)"
| "runOut Out_Send s =
     (case outPc s of
        OutSend req \<Rightarrow>
          (case chan_send req (chan s) of
             None \<Rightarrow> None
           | Some c \<Rightarrow>
               Some (s\<lparr>chan := c, trace := trace s @ [ChanSend req], outPc := OutStore req\<rparr>))
      | _ \<Rightarrow> None)"
| "runOut (Out_SentRequest now e) s =
     (case outPc s of
        OutStore req \<Rightarrow>
          Some (s\<lparr>trace := trace s @ [SentRequest (bidikey (hOut s)) (outReqID s) now req]
                       @ logErr ''Error storing request'' e,
                  outReqID := outReqID s + 1,
                  outPc := OutRead\<rparr>)
      | _ \<Rightarrow> None)"
| "runOut _ s = None"

text \<open>\<open>TCPStream.runIn\<close> (lines 106-158): lines 112-115; lines 120-124; lines 126-132;
  lines 133-137; lines 139-143; lines 144-150.\<close>

fun runIn :: "('rq, 'rs) action \<Rightarrow> ('rq, 'rs) conn \<Rightarrow> ('rq, 'rs) conn option" where
  "runIn (In_Peek e) s =
     (case inPc s of
        InPeek \<Rightarrow> if e = Some io_EOF then Some (s\<lparr>inPc := InDone\<rparr>) else Some (s\<lparr>inPc := InFind\<rparr>)
      | _ \<Rightarrow> None)"
| "runIn In_Find s =
     (case inPc s of
        InFind \<Rightarrow>
          (case reqInProgress (hIn s) of
             Some req \<Rightarrow> Some (s\<lparr>inPc := InRead req\<rparr>)
           | None \<Rightarrow>
               (case chan_recv (chan s) of
                  None \<Rightarrow> None
                | Some (req, c) \<Rightarrow>
                    Some (s\<lparr>chan := c, hIn := (hIn s)\<lparr>reqInProgress := Some req\<rparr>,
                            trace := trace s @ [ChanRecv req], inPc := InRead req\<rparr>)))
      | _ \<Rightarrow> None)"
| "runIn (In_ReadResponse r) s =
     (case inPc s of
        InRead req \<Rightarrow>
          (case r of
             Inl e \<Rightarrow>
               if e = io_EOF then Some (s\<lparr>inPc := InDone\<rparr>)
               else Some (s\<lparr>trace := trace s @ [DiscardBytesToFirstError], inPc := InFailed e\<rparr>)
           | Inr p \<Rightarrow> Some (s\<lparr>inPc := InDrain \<lparr>parsed = p, Request = req\<rparr>\<rparr>))
      | _ \<Rightarrow> None)"
| "runIn In_Report s =
     (case inPc s of
        InFailed e \<Rightarrow>
          Some (s\<lparr>trace := trace s
                       @ (if closed (hIn s) then [] else [LogPrintln ''Error reading stream'' e]),
                  inPc := InPeek\<rparr>)
      | _ \<Rightarrow> None)"
| "runIn (In_Discard e) s =
     (case inPc s of
        InDrain resp \<Rightarrow>
          Some (s\<lparr>trace := trace s @ [DiscardBody (ResponseBody resp)]
                       @ (case e of
                            None \<Rightarrow> []
                          | Some x \<Rightarrow> if x = io_EOF then [] else [LogPrintln ''Error discarding bytes '' x])
                       @ [BodyClose (ResponseBody resp)],
                  inPc := InStore resp\<rparr>)
      | _ \<Rightarrow> None)"
| "runIn (In_ReceivedResponse now e) s =
     (case inPc s of
        InStore resp \<Rightarrow>
          Some (s\<lparr>trace := trace s @ [ReceivedResponse (bidikey (hIn s)) (inReqID s) now resp]
                       @ logErr ''Error storing response'' e,
                  inReqID := inReqID s + 1,
                  hIn := (hIn s)\<lparr>reqInProgress := None\<rparr>,
                  inPc := InPeek\<rparr>)
      | _ \<Rightarrow> None)"
| "runIn _ s = None"

text \<open>\<open>main\<close>, lines 419-426: the flags that silence the readers' errors at shutdown.\<close>

fun mainClose :: "('rq, 'rs) action \<Rightarrow> ('rq, 'rs) conn \<Rightarrow> ('rq, 'rs) conn option" where
  "mainClose Main_CloseIn s = Some (s\<lparr>hIn := (hIn s)\<lparr>closed := True\<rparr>\<rparr>)"
| "mainClose Main_CloseOut s = Some (s\<lparr>hOut := (hOut s)\<lparr>closed := True\<rparr>\<rparr>)"
| "mainClose _ s = None"

text \<open>One step of the connection: the action's owner takes it.\<close>

definition step :: "('rq, 'rs) action \<Rightarrow> ('rq, 'rs) conn \<Rightarrow> ('rq, 'rs) conn option" where
  "step a s =
     (case runOut a s of
        Some s' \<Rightarrow> Some s'
      | None \<Rightarrow> (case runIn a s of Some s' \<Rightarrow> Some s' | None \<Rightarrow> mainClose a s))"

text \<open>A schedule: the actions in the order they are taken. It runs only if each action
  can be taken when its turn comes.\<close>

fun exec :: "('rq, 'rs) action list \<Rightarrow> ('rq, 'rs) conn \<Rightarrow> ('rq, 'rs) conn option" where
  "exec [] s = Some s"
| "exec (a # as) s = (case step a s of None \<Rightarrow> None | Some s' \<Rightarrow> exec as s')"

text \<open>What a trace says was sent on and received from the channel, whose body was closed,
  and what storage was told, in order.\<close>

fun sendOf :: "('rq, 'rs) event \<Rightarrow> 'rq list" where
  "sendOf (ChanSend r) = [r]"
| "sendOf _ = []"

fun recvOf :: "('rq, 'rs) event \<Rightarrow> 'rq list" where
  "recvOf (ChanRecv r) = [r]"
| "recvOf _ = []"

fun bodyCloseOf :: "('rq, 'rs) event \<Rightarrow> 'rq list" where
  "bodyCloseOf (BodyClose (RequestBody r)) = [r]"
| "bodyCloseOf _ = []"

fun sentOf :: "('rq, 'rs) event \<Rightarrow> (int64 \<times> 'rq) list" where
  "sentOf (SentRequest k i t r) = [(i, r)]"
| "sentOf _ = []"

fun receivedOf :: "('rq, 'rs) event \<Rightarrow> (int64 \<times> 'rq) list" where
  "receivedOf (ReceivedResponse k i t resp) = [(i, Request resp)]"
| "receivedOf _ = []"

fun closeOf :: "('rq, 'rs) event \<Rightarrow> (uint64 \<times> time) list" where
  "closeOf (CloseTCPConnection k t) = [(k, t)]"
| "closeOf _ = []"

definition pushed :: "('rq, 'rs) event list \<Rightarrow> 'rq list" where
  "pushed tr = concat (map sendOf tr)"

definition popped :: "('rq, 'rs) event list \<Rightarrow> 'rq list" where
  "popped tr = concat (map recvOf tr)"

definition bodiesClosed :: "('rq, 'rs) event list \<Rightarrow> 'rq list" where
  "bodiesClosed tr = concat (map bodyCloseOf tr)"

definition requestsSent :: "('rq, 'rs) event list \<Rightarrow> (int64 \<times> 'rq) list" where
  "requestsSent tr = concat (map sentOf tr)"

definition responsesReceived :: "('rq, 'rs) event list \<Rightarrow> (int64 \<times> 'rq) list" where
  "responsesReceived tr = concat (map receivedOf tr)"

definition closes :: "('rq, 'rs) event list \<Rightarrow> (uint64 \<times> time) list" where
  "closes tr = concat (map closeOf tr)"

text \<open>The calls to the storage layer among the events of a trace.\<close>

fun isStorage :: "('rq, 'rs) event \<Rightarrow> bool" where
  "isStorage (OpenTCPConnection k t) = True"
| "isStorage (CloseTCPConnection k t) = True"
| "isStorage (SentRequest k i t r) = True"
| "isStorage (ReceivedResponse k i t r) = True"
| "isStorage (IncomingTCPPacket k n) = True"
| "isStorage (OutgoingTCPPacket k n) = True"
| "isStorage _ = False"

definition storageCalls :: "('rq, 'rs) event list \<Rightarrow> ('rq, 'rs) event list" where
  "storageCalls tr = filter isStorage tr"

text \<open>A read-and-drop of a request's body by the program.\<close>

fun readsRequestBody :: "('rq, 'rs) event \<Rightarrow> bool" where
  "readsRequestBody (DiscardBody (RequestBody r)) = True"
| "readsRequestBody _ = False"

text \<open>The request a goroutine holds at its program counter: \<open>runOut\<close> about to send it,
  \<open>runOut\<close> about to store it, \<open>runIn\<close> reading or storing the response to it; and the
  request in \<open>reqInProgress\<close> of the inbound stream.\<close>

fun sending :: "'rq out_pc \<Rightarrow> 'rq list" where
  "sending (OutSend r) = [r]"
| "sending _ = []"

fun storing :: "'rq out_pc \<Rightarrow> 'rq list" where
  "storing (OutStore r) = [r]"
| "storing _ = []"

fun answering :: "('rq, 'rs) in_pc \<Rightarrow> 'rq list" where
  "answering (InRead r) = [r]"
| "answering (InDrain resp) = [Request resp]"
| "answering (InStore resp) = [Request resp]"
| "answering _ = []"

definition held :: "('rq, 'rs) conn \<Rightarrow> 'rq list" where
  "held s = (case reqInProgress (hIn s) of None \<Rightarrow> [] | Some r \<Rightarrow> [r])"

text \<open>The invariants of a connection. The channel: what was sent is what was received
  followed by what is buffered, within the capacity. \<open>runOut\<close>: bodies are closed, requests
  sent on the channel and requests stored in this order, one request at a time, numbered
  from zero; the connection close is stored when the goroutine has ended. \<open>runIn\<close>: the
  requests received from the channel are those of the responses stored, then the one in
  progress, numbered from zero.\<close>

definition chan_inv :: "('rq, 'rs) conn \<Rightarrow> bool" where
  "chan_inv s \<longleftrightarrow>
     length (buf (chan s)) \<le> cap (chan s) \<and>
     pushed (trace s) = popped (trace s) @ buf (chan s)"

definition out_inv :: "('rq, 'rs) conn \<Rightarrow> bool" where
  "out_inv s \<longleftrightarrow>
     bodiesClosed (trace s) = pushed (trace s) @ sending (outPc s) \<and>
     pushed (trace s) = map snd (requestsSent (trace s)) @ storing (outPc s) \<and>
     map fst (requestsSent (trace s)) = map of_nat [0..<length (requestsSent (trace s))] \<and>
     outReqID s = of_nat (length (requestsSent (trace s))) \<and>
     length (closes (trace s)) = (if outPc s = OutDone then 1 else 0)"

definition in_inv :: "('rq, 'rs) conn \<Rightarrow> bool" where
  "in_inv s \<longleftrightarrow>
     popped (trace s) = map snd (responsesReceived (trace s)) @ held s \<and>
     map fst (responsesReceived (trace s)) = map of_nat [0..<length (responsesReceived (trace s))] \<and>
     inReqID s = of_nat (length (responsesReceived (trace s))) \<and>
     (answering (inPc s) = [] \<or> answering (inPc s) = held s)"

definition conn_inv :: "('rq, 'rs) conn \<Rightarrow> bool" where
  "conn_inv s \<longleftrightarrow> chan_inv s \<and> out_inv s \<and> in_inv s"

text \<open>What no step changes: the keys of the two streams and the capacity of the channel.\<close>

definition fixed :: "('rq, 'rs) conn \<Rightarrow> ('rq, 'rs) conn \<Rightarrow> bool" where
  "fixed s s' \<longleftrightarrow> bidikey (hOut s') = bidikey (hOut s) \<and> bidikey (hIn s') = bidikey (hIn s)
     \<and> cap (chan s') = cap (chan s)"

text \<open>A client-to-server flow pair, for the examples.\<close>

definition clientNetFlow :: Flow where
  "clientNetFlow = \<lparr>ftyp = 2, src = [10, 0, 0, 1], dst = [10, 0, 0, 2]\<rparr>"

definition clientTcpFlow :: Flow where
  "clientTcpFlow = \<lparr>ftyp = 4, src = [195, 80], dst = [0, 80]\<rparr>"

text \<open>The factory after it has seen the client's direction, then the server's; a packet of
  each direction with 100 and 1448 bytes of payload; a packet without an IPv4 layer.\<close>

definition exampleFactory :: "(string, nat) httpStreamFactory" where
  "exampleFactory =
     New fnvFastHash (Reverse clientNetFlow) (Reverse clientTcpFlow) 2 None
       (New fnvFastHash clientNetFlow clientTcpFlow 1 None NewStreamFactory)"

definition requestPacket :: Packet where
  "requestPacket = \<lparr>NetworkLayer = Some clientNetFlow, TransportLayer = Some clientTcpFlow,
     ipv4Layer = Some \<lparr>Length = 140, IHL = 5\<rparr>, tcpLayer = Some \<lparr>DataOffset = 5\<rparr>\<rparr>"

definition responsePacket :: Packet where
  "responsePacket = \<lparr>NetworkLayer = Some (Reverse clientNetFlow),
     TransportLayer = Some (Reverse clientTcpFlow),
     ipv4Layer = Some \<lparr>Length = 1500, IHL = 5\<rparr>, tcpLayer = Some \<lparr>DataOffset = 8\<rparr>\<rparr>"

definition ipv6Packet :: Packet where
  "ipv6Packet = \<lparr>NetworkLayer = Some clientNetFlow, TransportLayer = Some clientTcpFlow,
     ipv4Layer = None, tcpLayer = Some \<lparr>DataOffset = 5\<rparr>\<rparr>"

text \<open>The connection of \<open>exampleFactory\<close> as its goroutines start, and three schedules: one
  request; two pipelined requests answered in order, then end of input on both sides; a
  hundred requests that nobody answers and one more.\<close>

definition exampleConn :: "(string, nat) conn" where
  "exampleConn =
     \<lparr>hOut = \<lparr>netFlow = clientNetFlow, tcpFlow = clientTcpFlow,
              bidikey = flowKey fnvFastHash clientNetFlow clientTcpFlow,
              closed = False, reqInProgress = None\<rparr>,
      hIn = \<lparr>netFlow = Reverse clientNetFlow, tcpFlow = Reverse clientTcpFlow,
             bidikey = flowKey fnvFastHash clientNetFlow clientTcpFlow,
             closed = False, reqInProgress = None\<rparr>,
      chan = make_chan 100, outPc = OutRead, outReqID = 0,
      inPc = InPeek, inReqID = 0, trace = []\<rparr>"


definition pipelined :: "(string, nat) action list" where
  "pipelined =
     [Out_ReadRequest (Inr ''GET /a''), Out_Send, Out_SentRequest 3 None,
      Out_ReadRequest (Inr ''GET /b''), Out_Send,
      In_Peek None, In_Find, In_ReadResponse (Inr 200),
      Out_SentRequest 4 None,
      In_Discard (Some io_EOF), In_ReceivedResponse 5 None,
      In_Peek None, In_Find, In_ReadResponse (Inr 404), In_Discard None,
      In_ReceivedResponse 6 None,
      Out_ReadRequest (Inl io_EOF), Out_CloseTCPConnection 7 None,
      In_Peek (Some io_EOF)]"

definition hundredRequests :: "(string, nat) action list" where
  "hundredRequests =
     concat (replicate 100 [Out_ReadRequest (Inr ''GET /a''), Out_Send, Out_SentRequest 3 None])
     @ [Out_ReadRequest (Inr ''GET /b'')]"

section \<open>Properties\<close>

subsection \<open>Connection identity\<close>

lemma fnvFastHash_Reverse: "fnvFastHash (Reverse f) = fnvFastHash f"
  by (simp add: fnvFastHash_def Reverse_def add.commute)

text \<open>
  C2. The connection identity is direction-independent: with a flow hash that gives a flow
  and its reverse the same value, as gopacket's \<open>FastHash\<close> does, the key that \<open>New\<close> and
  \<open>LogPacketSize\<close> compute from the network and transport flows of one direction equals
  the key they compute from the flows of the opposite direction.
\<close>

theorem connection_identity_symmetric:
  assumes "\<forall>f. fastHash (Reverse f) = fastHash f"
  shows "flowKey fastHash (Reverse nf) (Reverse tf) = flowKey fastHash nf tf"
  using assms by (simp add: flowKey_def)

theorem connection_identity_symmetric_witness:
  "(\<forall>f. fnvFastHash (Reverse f) = fnvFastHash f) \<and>
   flowKey fnvFastHash (Reverse clientNetFlow) (Reverse clientTcpFlow)
     = flowKey fnvFastHash clientNetFlow clientTcpFlow"
proof -
  have h: "\<forall>f. fnvFastHash (Reverse f) = fnvFastHash f"
    by (simp add: fnvFastHash_Reverse)
  show ?thesis
    using h connection_identity_symmetric [OF h, of clientNetFlow clientTcpFlow] by simp
qed

subsection \<open>The registry\<close>

lemma storageCalls_logErr [simp]: "filter isStorage (logErr m e) = []"
  by (cases e) (simp_all add: logErr_def)

lemma New_twice:
  assumes "bidiStreams h (flowKey fh nf tf) = None"
    and "flowKey fh nf' tf' = flowKey fh nf tf"
  shows "bidiStreams (New fh nf' tf' now' e' (New fh nf tf now e h)) (flowKey fh nf tf) =
        Some \<lparr>key = flowKey fh nf tf,
              bds_in = Some \<lparr>netFlow = nf', tcpFlow = tf', bidikey = flowKey fh nf tf,
                               closed = False, reqInProgress = None\<rparr>,
              bds_out = Some \<lparr>netFlow = nf, tcpFlow = tf, bidikey = flowKey fh nf tf,
                               closed = False, reqInProgress = None\<rparr>,
              requests = make_chan 100\<rparr>"
  using assms by (simp add: New_def Let_def)

lemma flowKey_Reverse_fnv:
  "flowKey fnvFastHash (Reverse nf) (Reverse tf) = flowKey fnvFastHash nf tf"
  by (simp add: flowKey_def fnvFastHash_Reverse)

lemma exampleFactory_established:
  "bidiStreams exampleFactory (flowKey fnvFastHash clientNetFlow clientTcpFlow) =
     Some \<lparr>key = flowKey fnvFastHash clientNetFlow clientTcpFlow,
           bds_in = Some \<lparr>netFlow = Reverse clientNetFlow, tcpFlow = Reverse clientTcpFlow,
                           bidikey = flowKey fnvFastHash clientNetFlow clientTcpFlow,
                           closed = False, reqInProgress = None\<rparr>,
           bds_out = Some \<lparr>netFlow = clientNetFlow, tcpFlow = clientTcpFlow,
                            bidikey = flowKey fnvFastHash clientNetFlow clientTcpFlow,
                            closed = False, reqInProgress = None\<rparr>,
           requests = make_chan 100\<rparr>"
  unfolding exampleFactory_def
  by (rule New_twice) (simp_all add: NewStreamFactory_def flowKey_Reverse_fnv)

lemma Reverse_clientNetFlow: "Reverse clientNetFlow \<noteq> clientNetFlow"
  by (simp add: Reverse_def clientNetFlow_def)

text \<open>
  C6. Register and attach. When \<open>New\<close> sees a direction whose identity is not in the
  registry, it stores a correlator with only the outbound stream, whose channel is empty with
  room for 100, and calls no storage function. When the identity is in the registry, it
  keeps that correlator (its key, outbound stream and channel), attaches the new stream as
  the inbound one, and calls \<open>OpenTCPConnection\<close> once. Other identities are untouched.
\<close>

theorem New_register_attach:
  "(bidiStreams h (flowKey fh nf tf) = None \<longrightarrow>
      bidiStreams (New fh nf tf now e h) (flowKey fh nf tf) =
        Some \<lparr>key = flowKey fh nf tf, bds_in = None,
              bds_out = Some \<lparr>netFlow = nf, tcpFlow = tf, bidikey = flowKey fh nf tf,
                               closed = False, reqInProgress = None\<rparr>,
              requests = make_chan 100\<rparr>
      \<and> storageCalls (ftrace (New fh nf tf now e h)) = storageCalls (ftrace h))
   \<and> (bidiStreams h (flowKey fh nf tf) = Some bds \<longrightarrow>
      bidiStreams (New fh nf tf now e h) (flowKey fh nf tf) =
        Some (bds\<lparr>bds_in := Some \<lparr>netFlow = nf, tcpFlow = tf, bidikey = flowKey fh nf tf,
                                    closed = False, reqInProgress = None\<rparr>\<rparr>)
      \<and> storageCalls (ftrace (New fh nf tf now e h))
          = storageCalls (ftrace h) @ [OpenTCPConnection (flowKey fh nf tf) now])
   \<and> (\<forall>k'. k' \<noteq> flowKey fh nf tf \<longrightarrow> bidiStreams (New fh nf tf now e h) k' = bidiStreams h k')"
  by (cases e) (simp_all add: New_def Let_def storageCalls_def split: option.splits)

theorem New_register_attach_witness:
  "bidiStreams (New fnvFastHash clientNetFlow clientTcpFlow 1 None
       (NewStreamFactory :: (string, nat) httpStreamFactory))
     (flowKey fnvFastHash clientNetFlow clientTcpFlow) =
     Some \<lparr>key = flowKey fnvFastHash clientNetFlow clientTcpFlow, bds_in = None,
           bds_out = Some \<lparr>netFlow = clientNetFlow, tcpFlow = clientTcpFlow,
                            bidikey = flowKey fnvFastHash clientNetFlow clientTcpFlow,
                            closed = False, reqInProgress = None\<rparr>,
           requests = make_chan 100\<rparr>
   \<and> storageCalls (ftrace (New fnvFastHash clientNetFlow clientTcpFlow 1 None
       (NewStreamFactory :: (string, nat) httpStreamFactory))) = []
   \<and> storageCalls (ftrace exampleFactory)
       = [OpenTCPConnection (flowKey fnvFastHash clientNetFlow clientTcpFlow) 2]
   \<and> bds_in (the (bidiStreams exampleFactory (flowKey fnvFastHash clientNetFlow clientTcpFlow)))
       = Some \<lparr>netFlow = Reverse clientNetFlow, tcpFlow = Reverse clientTcpFlow,
                bidikey = flowKey fnvFastHash clientNetFlow clientTcpFlow,
                closed = False, reqInProgress = None\<rparr>"
proof -
  let ?k = "flowKey fnvFastHash clientNetFlow clientTcpFlow"
  let ?h0 = "NewStreamFactory :: (string, nat) httpStreamFactory"
  let ?h1 = "New fnvFastHash clientNetFlow clientTcpFlow 1 None ?h0"
  have a: "bidiStreams ?h0 ?k = None" by (simp add: NewStreamFactory_def)
  have c0: "storageCalls (ftrace ?h0) = []" by (simp add: NewStreamFactory_def storageCalls_def)
  note first = New_register_attach [where h = ?h0 and fh = fnvFastHash and nf = clientNetFlow
      and tf = clientTcpFlow and now = 1 and e = None]
  from first a have b: "bidiStreams ?h1 ?k =
     Some \<lparr>key = ?k, bds_in = None,
           bds_out = Some \<lparr>netFlow = clientNetFlow, tcpFlow = clientTcpFlow,
                            bidikey = ?k, closed = False, reqInProgress = None\<rparr>,
           requests = make_chan 100\<rparr>"
    and c1: "storageCalls (ftrace ?h1) = []"
    using c0 by simp_all
  have b': "bidiStreams ?h1 (flowKey fnvFastHash (Reverse clientNetFlow) (Reverse clientTcpFlow)) =
     Some \<lparr>key = ?k, bds_in = None,
           bds_out = Some \<lparr>netFlow = clientNetFlow, tcpFlow = clientTcpFlow,
                            bidikey = ?k, closed = False, reqInProgress = None\<rparr>,
           requests = make_chan 100\<rparr>"
    using b by (simp add: flowKey_Reverse_fnv)
  note second = New_register_attach [where h = ?h1 and fh = fnvFastHash
      and nf = "Reverse clientNetFlow" and tf = "Reverse clientTcpFlow" and now = 2 and e = None,
      THEN conjunct2, THEN conjunct1, rule_format, OF b']
  from second c1 b show ?thesis
    by (simp add: exampleFactory_def flowKey_Reverse_fnv)
qed

subsection \<open>Packet accounting\<close>

lemma unat_ucast_8_16: "unat (ucast (x :: uint8) :: uint16) = unat x"
proof -
  have "unat x < 2 ^ 8" using unsigned_less [of x, where 'a = nat] by simp
  then have "unat x < 2 ^ 16" by simp
  then show ?thesis by (simp add: unsigned_ucast_eq take_bit_nat_eq_self)
qed

lemma unat_ucast_16_32: "unat (ucast (x :: uint16) :: uint32) = unat x"
proof -
  have "unat x < 2 ^ 16" using unsigned_less [of x, where 'a = nat] by simp
  then have "unat x < 2 ^ 32" by simp
  then show ?thesis by (simp add: unsigned_ucast_eq take_bit_nat_eq_self)
qed

lemma unat_hdr:
  fixes x :: uint8
  shows "unat ((ucast x :: uint16) * 4) = 4 * unat x"
proof -
  have "unat x < 2 ^ 8" using unsigned_less [of x, where 'a = nat] by simp
  then have "unat (ucast x :: uint16) * 4 < 2 ^ 16" by (simp add: unat_ucast_8_16)
  then show ?thesis
    by (simp add: unat_word_ariths unat_ucast_8_16)
qed

lemma payloadLength_nat:
  assumes "4 * unat (IHL ip) + 4 * unat (DataOffset tc) \<le> unat (Length ip)"
  shows "unat (payloadLength ip tc) = unat (Length ip) - 4 * unat (IHL ip) - 4 * unat (DataOffset tc)"
proof -
  let ?a = "(ucast (IHL ip) :: uint16) * 4" and ?b = "(ucast (DataOffset tc) :: uint16) * 4"
  have a: "unat ?a = 4 * unat (IHL ip)" and b: "unat ?b = 4 * unat (DataOffset tc)"
    by (rule unat_hdr)+
  have le1: "?a \<le> Length ip" using assms a by (simp add: word_le_nat_alt)
  have s1: "unat (Length ip - ?a) = unat (Length ip) - 4 * unat (IHL ip)"
    using le1 a by (simp add: unat_sub)
  have le2: "?b \<le> Length ip - ?a" using assms s1 b by (simp add: word_le_nat_alt)
  have "unat (Length ip - ?a - ?b) = unat (Length ip) - 4 * unat (IHL ip) - 4 * unat (DataOffset tc)"
    using le2 s1 b by (simp add: unat_sub)
  then show ?thesis
    by (simp add: payloadLength_def unat_ucast_16_32)
qed

text \<open>
  C7. The packet accountant, for a packet that has a network and a transport layer. If its
  identity is not in the registry, or the correlator lacks a direction, \<open>LogPacketSize\<close>
  returns without a storage call and without a fault. If both directions are attached (and
  the packet has its IPv4 and TCP layers), it makes one storage call with the payload length
  \<open>Length - IHL * 4 - DataOffset * 4\<close>, computed in \<open>uint16\<close>: \<open>IncomingTCPPacket\<close> when the
  packet's network flow is the inbound stream's, \<open>OutgoingTCPPacket\<close> otherwise. When the two
  headers fit in the total length, that is the difference of the three numbers.
\<close>

theorem LogPacketSize_contract:
  assumes "NetworkLayer p = Some nf" and "TransportLayer p = Some tf"
  shows "((bidiStreams h (flowKey fh nf tf) = None
           \<or> (\<exists>bds. bidiStreams h (flowKey fh nf tf) = Some bds
                \<and> (bds_in bds = None \<or> bds_out bds = None)))
          \<longrightarrow> LogPacketSize fh p se h = (None, h))
       \<and> (bidiStreams h (flowKey fh nf tf) = Some bds \<and> bds_in bds = Some inb
            \<and> bds_out bds = Some outb \<and> ipv4Layer p = Some ip \<and> tcpLayer p = Some tc
          \<longrightarrow> LogPacketSize fh p se h =
                (map_option Panic se,
                 h\<lparr>ftrace := ftrace h @
                    [if netFlow inb = nf
                     then IncomingTCPPacket (flowKey fh nf tf) (payloadLength ip tc)
                     else OutgoingTCPPacket (flowKey fh nf tf) (payloadLength ip tc)]\<rparr>)
              \<and> payloadLength ip tc
                  = ucast (Length ip - (ucast (IHL ip) :: uint16) * 4
                           - (ucast (DataOffset tc) :: uint16) * 4)
              \<and> (4 * unat (IHL ip) + 4 * unat (DataOffset tc) \<le> unat (Length ip)
                  \<longrightarrow> unat (payloadLength ip tc)
                       = unat (Length ip) - 4 * unat (IHL ip) - 4 * unat (DataOffset tc)))"
proof -
  have "LogPacketSize fh p se h = (None, h)"
    if "bidiStreams h (flowKey fh nf tf) = None
        \<or> (\<exists>bds. bidiStreams h (flowKey fh nf tf) = Some bds
             \<and> (bds_in bds = None \<or> bds_out bds = None))"
    using that assms by (auto simp: LogPacketSize_def Let_def split: option.splits)
  moreover have "LogPacketSize fh p se h =
                (map_option Panic se,
                 h\<lparr>ftrace := ftrace h @
                    [if netFlow inb = nf
                     then IncomingTCPPacket (flowKey fh nf tf) (payloadLength ip tc)
                     else OutgoingTCPPacket (flowKey fh nf tf) (payloadLength ip tc)]\<rparr>)"
    if "bidiStreams h (flowKey fh nf tf) = Some bds \<and> bds_in bds = Some inb
            \<and> bds_out bds = Some outb \<and> ipv4Layer p = Some ip \<and> tcpLayer p = Some tc"
    using that assms by (simp add: LogPacketSize_def Let_def)
  moreover have "payloadLength ip tc
                  = ucast (Length ip - (ucast (IHL ip) :: uint16) * 4
                           - (ucast (DataOffset tc) :: uint16) * 4)"
    by (simp add: payloadLength_def)
  ultimately show ?thesis
    using payloadLength_nat [of ip tc] by blast
qed

theorem LogPacketSize_contract_witness:
  "LogPacketSize fnvFastHash requestPacket None (NewStreamFactory :: (string, nat) httpStreamFactory)
     = (None, NewStreamFactory)
   \<and> LogPacketSize fnvFastHash requestPacket None exampleFactory =
       (None, exampleFactory\<lparr>ftrace := ftrace exampleFactory @
          [OutgoingTCPPacket (flowKey fnvFastHash clientNetFlow clientTcpFlow) 100]\<rparr>)
   \<and> LogPacketSize fnvFastHash responsePacket None exampleFactory =
       (None, exampleFactory\<lparr>ftrace := ftrace exampleFactory @
          [IncomingTCPPacket (flowKey fnvFastHash clientNetFlow clientTcpFlow) 1448]\<rparr>)"
proof -
  let ?k = "flowKey fnvFastHash clientNetFlow clientTcpFlow"
  have n: "NetworkLayer requestPacket = Some clientNetFlow"
    and t: "TransportLayer requestPacket = Some clientTcpFlow"
    and n': "NetworkLayer responsePacket = Some (Reverse clientNetFlow)"
    and t': "TransportLayer responsePacket = Some (Reverse clientTcpFlow)"
    by (simp_all add: requestPacket_def responsePacket_def)
  have "LogPacketSize fnvFastHash requestPacket None (NewStreamFactory :: (string, nat) httpStreamFactory)
     = (None, NewStreamFactory)"
    using LogPacketSize_contract [OF n t, where h = "NewStreamFactory :: (string, nat) httpStreamFactory"
        and fh = fnvFastHash and se = None]
    by (simp add: NewStreamFactory_def)
  moreover have "LogPacketSize fnvFastHash requestPacket None exampleFactory =
       (None, exampleFactory\<lparr>ftrace := ftrace exampleFactory @ [OutgoingTCPPacket ?k 100]\<rparr>)"
    using LogPacketSize_contract [OF n t, where h = exampleFactory and fh = fnvFastHash
        and se = None and bds = "the (bidiStreams exampleFactory ?k)"
        and inb = "\<lparr>netFlow = Reverse clientNetFlow, tcpFlow = Reverse clientTcpFlow,
          bidikey = ?k, closed = False, reqInProgress = None\<rparr>"
        and outb = "\<lparr>netFlow = clientNetFlow, tcpFlow = clientTcpFlow,
          bidikey = ?k, closed = False, reqInProgress = None\<rparr>"
        and ip = "\<lparr>Length = 140, IHL = 5\<rparr>" and tc = "\<lparr>DataOffset = 5\<rparr>"]
      Reverse_clientNetFlow
    by (simp add: exampleFactory_established requestPacket_def payloadLength_def)
  moreover have "LogPacketSize fnvFastHash responsePacket None exampleFactory =
       (None, exampleFactory\<lparr>ftrace := ftrace exampleFactory @ [IncomingTCPPacket ?k 1448]\<rparr>)"
    using LogPacketSize_contract [OF n' t', where h = exampleFactory and fh = fnvFastHash
        and se = None and bds = "the (bidiStreams exampleFactory ?k)"
        and inb = "\<lparr>netFlow = Reverse clientNetFlow, tcpFlow = Reverse clientTcpFlow,
          bidikey = ?k, closed = False, reqInProgress = None\<rparr>"
        and outb = "\<lparr>netFlow = clientNetFlow, tcpFlow = clientTcpFlow,
          bidikey = ?k, closed = False, reqInProgress = None\<rparr>"
        and ip = "\<lparr>Length = 1500, IHL = 5\<rparr>" and tc = "\<lparr>DataOffset = 8\<rparr>"]
    by (simp add: exampleFactory_established responsePacket_def payloadLength_def
        flowKey_Reverse_fnv)
  ultimately show ?thesis by blast
qed

text \<open>
  C10. Once both directions of the packet's connection are attached, \<open>LogPacketSize\<close>
  dereferences the IPv4 and the TCP layer without a nil check: the call ends in a nil
  dereference exactly when the packet lacks one of the two layers, and then before any
  storage call.
\<close>

theorem LogPacketSize_nil_dereference:
  assumes "NetworkLayer p = Some nf" and "TransportLayer p = Some tf"
    and "bidiStreams h (flowKey fh nf tf) = Some bds"
    and "bds_in bds = Some inb" and "bds_out bds = Some outb"
  shows "(fst (LogPacketSize fh p se h) = Some NilPointerDereference
            \<longleftrightarrow> ipv4Layer p = None \<or> tcpLayer p = None)
       \<and> (ipv4Layer p = None \<or> tcpLayer p = None \<longrightarrow> snd (LogPacketSize fh p se h) = h)"
  using assms by (cases se) (auto simp: LogPacketSize_def Let_def split: option.splits)

theorem LogPacketSize_nil_dereference_witness:
  "fst (LogPacketSize fnvFastHash ipv6Packet None exampleFactory) = Some NilPointerDereference
   \<and> snd (LogPacketSize fnvFastHash ipv6Packet None exampleFactory) = exampleFactory
   \<and> fst (LogPacketSize fnvFastHash requestPacket None exampleFactory) \<noteq> Some NilPointerDereference"
proof -
  let ?k = "flowKey fnvFastHash clientNetFlow clientTcpFlow"
  let ?inb = "\<lparr>netFlow = Reverse clientNetFlow, tcpFlow = Reverse clientTcpFlow,
          bidikey = ?k, closed = False, reqInProgress = None :: string option\<rparr>"
  let ?outb = "\<lparr>netFlow = clientNetFlow, tcpFlow = clientTcpFlow,
          bidikey = ?k, closed = False, reqInProgress = None :: string option\<rparr>"
  let ?bds = "\<lparr>key = ?k, bds_in = Some ?inb, bds_out = Some ?outb, requests = make_chan 100\<rparr>"
  have e: "bidiStreams exampleFactory ?k = Some ?bds" by (rule exampleFactory_established)
  have i: "bds_in ?bds = Some ?inb" and ou: "bds_out ?bds = Some ?outb" by simp_all
  have n6: "NetworkLayer ipv6Packet = Some clientNetFlow"
    and t6: "TransportLayer ipv6Packet = Some clientTcpFlow"
    and n: "NetworkLayer requestPacket = Some clientNetFlow"
    and t: "TransportLayer requestPacket = Some clientTcpFlow"
    by (simp_all add: requestPacket_def ipv6Packet_def)
  show ?thesis
    using LogPacketSize_nil_dereference [OF n6 t6 e i ou, where se = None]
      LogPacketSize_nil_dereference [OF n t e i ou, where se = None]
    by (simp add: ipv6Packet_def requestPacket_def)
qed

subsection \<open>Invariants of the reader goroutines\<close>

lemma proj_Nil [simp]:
  "pushed [] = []" "popped [] = []" "bodiesClosed [] = []" "requestsSent [] = []"
  "responsesReceived [] = []" "closes [] = []"
  by (simp_all add: pushed_def popped_def bodiesClosed_def requestsSent_def
      responsesReceived_def closes_def)

lemma proj_append [simp]:
  "pushed (tr @ tr') = pushed tr @ pushed tr'"
  "popped (tr @ tr') = popped tr @ popped tr'"
  "bodiesClosed (tr @ tr') = bodiesClosed tr @ bodiesClosed tr'"
  "requestsSent (tr @ tr') = requestsSent tr @ requestsSent tr'"
  "responsesReceived (tr @ tr') = responsesReceived tr @ responsesReceived tr'"
  "closes (tr @ tr') = closes tr @ closes tr'"
  by (simp_all add: pushed_def popped_def bodiesClosed_def requestsSent_def
      responsesReceived_def closes_def)

lemma proj_Cons [simp]:
  "pushed (ev # tr) = sendOf ev @ pushed tr"
  "popped (ev # tr) = recvOf ev @ popped tr"
  "bodiesClosed (ev # tr) = bodyCloseOf ev @ bodiesClosed tr"
  "requestsSent (ev # tr) = sentOf ev @ requestsSent tr"
  "responsesReceived (ev # tr) = receivedOf ev @ responsesReceived tr"
  "closes (ev # tr) = closeOf ev @ closes tr"
  by (simp_all add: pushed_def popped_def bodiesClosed_def requestsSent_def
      responsesReceived_def closes_def)

lemma proj_logErr [simp]:
  "pushed (logErr m e) = []" "popped (logErr m e) = []" "bodiesClosed (logErr m e) = []"
  "requestsSent (logErr m e) = []" "responsesReceived (logErr m e) = []"
  "closes (logErr m e) = []"
  by (cases e; simp add: logErr_def)+

lemma runOut_chan_inv: "chan_inv s \<Longrightarrow> runOut a s = Some s' \<Longrightarrow> chan_inv s'"
  by (cases a)
     (auto simp: chan_inv_def chan_send_def split: out_pc.splits sum.splits if_splits)

lemma runIn_chan_inv: "chan_inv s \<Longrightarrow> runIn a s = Some s' \<Longrightarrow> chan_inv s'"
  by (cases a)
     (auto simp: chan_inv_def chan_recv_def
           split: in_pc.splits sum.splits if_splits option.splits list.splits)

lemma mainClose_chan_inv: "chan_inv s \<Longrightarrow> mainClose a s = Some s' \<Longrightarrow> chan_inv s'"
  by (cases a) (auto simp: chan_inv_def)

lemma runOut_out_inv: "out_inv s \<Longrightarrow> runOut a s = Some s' \<Longrightarrow> out_inv s'"
  by (cases a)
     (auto simp: out_inv_def chan_send_def split: out_pc.splits sum.splits if_splits)

lemma runIn_out_inv: "out_inv s \<Longrightarrow> runIn a s = Some s' \<Longrightarrow> out_inv s'"
  by (cases a)
     (auto simp: out_inv_def chan_recv_def
           split: in_pc.splits sum.splits if_splits option.splits list.splits)

lemma mainClose_out_inv: "out_inv s \<Longrightarrow> mainClose a s = Some s' \<Longrightarrow> out_inv s'"
  by (cases a) (auto simp: out_inv_def)

lemma runOut_in_inv: "in_inv s \<Longrightarrow> runOut a s = Some s' \<Longrightarrow> in_inv s'"
  by (cases a)
     (auto simp: in_inv_def held_def chan_send_def split: out_pc.splits sum.splits if_splits)

lemma runIn_in_inv: "in_inv s \<Longrightarrow> runIn a s = Some s' \<Longrightarrow> in_inv s'"
  by (cases a)
     (auto simp: in_inv_def held_def chan_recv_def
           split: in_pc.splits sum.splits if_splits option.splits list.splits)

lemma mainClose_in_inv: "in_inv s \<Longrightarrow> mainClose a s = Some s' \<Longrightarrow> in_inv s'"
  by (cases a) (auto simp: in_inv_def held_def)

lemma step_conn_inv: "conn_inv s \<Longrightarrow> step a s = Some s' \<Longrightarrow> conn_inv s'"
  unfolding conn_inv_def step_def
  by (auto split: option.splits
      intro: runOut_chan_inv runIn_chan_inv mainClose_chan_inv
             runOut_out_inv runIn_out_inv mainClose_out_inv
             runOut_in_inv runIn_in_inv mainClose_in_inv)

lemma exec_conn_inv: "conn_inv s \<Longrightarrow> exec acts s = Some s' \<Longrightarrow> conn_inv s'"
  by (induction acts arbitrary: s) (auto split: option.splits dest: step_conn_inv)

lemma connOf_registered:
  assumes "bidiStreams (New fh nf' tf' now' e' (New fh nf tf now e NewStreamFactory))
             (flowKey fh nf tf) = Some bds"
    and "connOf bds = Some s0"
  shows "s0 = \<lparr>hOut = \<lparr>netFlow = nf, tcpFlow = tf, bidikey = flowKey fh nf tf,
                       closed = False, reqInProgress = None\<rparr>,
               hIn = \<lparr>netFlow = nf', tcpFlow = tf', bidikey = flowKey fh nf tf,
                      closed = False, reqInProgress = None\<rparr>,
               chan = make_chan 100, outPc = OutRead, outReqID = 0,
               inPc = InPeek, inReqID = 0, trace = []\<rparr>"
proof (cases "flowKey fh nf' tf' = flowKey fh nf tf")
  case True
  have "bidiStreams (NewStreamFactory :: ('a, 'b) httpStreamFactory) (flowKey fh nf tf) = None"
    by (simp add: NewStreamFactory_def)
  from New_twice [OF this True] assms show ?thesis
    by (auto simp: connOf_def)
next
  case False
  with assms show ?thesis
    by (auto simp: New_def Let_def NewStreamFactory_def connOf_def split: if_splits)
qed

lemma conn_inv_start:
  assumes "bidiStreams (New fh nf' tf' now' e' (New fh nf tf now e NewStreamFactory))
             (flowKey fh nf tf) = Some bds"
    and "connOf bds = Some s0"
  shows "conn_inv s0"
  unfolding connOf_registered [OF assms]
  by (simp add: conn_inv_def chan_inv_def out_inv_def in_inv_def held_def make_chan_def)

lemma step_fixed: "step a s = Some s' \<Longrightarrow> fixed s s'"
  by (cases a)
     (auto simp: step_def fixed_def chan_send_def chan_recv_def
           split: out_pc.splits in_pc.splits sum.splits if_splits option.splits list.splits)

lemma exec_fixed: "exec acts s = Some s' \<Longrightarrow> fixed s s'"
proof (induction acts arbitrary: s)
  case Nil
  then show ?case by (simp add: fixed_def)
next
  case (Cons a acts)
  then obtain s1 where "step a s = Some s1" and "exec acts s1 = Some s'"
    by (auto split: option.splits)
  with Cons.IH [of s1] step_fixed [of a s s1] show ?case by (simp add: fixed_def)
qed

lemma readsRequestBody_logErr [simp]: "filter readsRequestBody (logErr m e) = []"
  by (cases e) (simp_all add: logErr_def)



lemma exec_append:
  "exec (as @ bs) s = (case exec as s of None \<Rightarrow> None | Some s' \<Rightarrow> exec bs s')"
  by (induction as arbitrary: s) (auto split: option.splits)

lemma fill_channel:
  assumes "outPc s = OutRead" and "length (buf (chan s)) + n \<le> cap (chan s)"
  shows "\<exists>s'. exec (concat (replicate n [Out_ReadRequest (Inr r), Out_Send, Out_SentRequest t None])) s
              = Some s'
           \<and> outPc s' = OutRead \<and> length (buf (chan s')) = length (buf (chan s)) + n
           \<and> cap (chan s') = cap (chan s) \<and> inPc s' = inPc s"
  using assms
proof (induction n arbitrary: s)
  case 0
  then show ?case by simp
next
  case (Suc n)
  define cyc :: "('a, 'b) action list"
    where "cyc = [Out_ReadRequest (Inr r), Out_Send, Out_SentRequest t None]"
  define s1 where "s1 = s\<lparr>chan := (chan s)\<lparr>buf := buf (chan s) @ [r]\<rparr>,
               trace := trace s @ [BodyClose (RequestBody r), ChanSend r,
                          SentRequest (bidikey (hOut s)) (outReqID s) t r],
               outReqID := outReqID s + 1\<rparr>"
  have one: "exec cyc s = Some s1"
    using Suc.prems by (simp add: cyc_def s1_def step_def chan_send_def logErr_def)
  have "outPc s1 = OutRead" and "length (buf (chan s1)) + n \<le> cap (chan s1)"
    using Suc.prems by (simp_all add: s1_def)
  from Suc.IH [OF this, folded cyc_def] obtain s' where
    rest: "exec (concat (replicate n cyc)) s1 = Some s'"
    and "outPc s' = OutRead" and "length (buf (chan s')) = length (buf (chan s1)) + n"
    and "cap (chan s') = cap (chan s1)" and "inPc s' = inPc s1"
    by blast
  then have props: "outPc s' = OutRead" "length (buf (chan s')) = length (buf (chan s)) + Suc n"
    "cap (chan s') = cap (chan s)" "inPc s' = inPc s"
    by (simp_all add: s1_def)
  have "exec (concat (replicate (Suc n) cyc)) s = exec (cyc @ concat (replicate n cyc)) s"
    by simp
  also have "\<dots> = exec (concat (replicate n cyc)) s1"
    unfolding exec_append by (simp only: one option.case)
  finally have "exec (concat (replicate (Suc n) cyc)) s = Some s'"
    using rest by simp
  with props show ?case unfolding cyc_def by blast
qed

lemma connOf_example:
  "connOf \<lparr>key = flowKey fnvFastHash clientNetFlow clientTcpFlow,
           bds_in = Some \<lparr>netFlow = Reverse clientNetFlow, tcpFlow = Reverse clientTcpFlow,
                           bidikey = flowKey fnvFastHash clientNetFlow clientTcpFlow,
                           closed = False, reqInProgress = None\<rparr>,
           bds_out = Some \<lparr>netFlow = clientNetFlow, tcpFlow = clientTcpFlow,
                            bidikey = flowKey fnvFastHash clientNetFlow clientTcpFlow,
                            closed = False, reqInProgress = None\<rparr>,
           requests = make_chan 100\<rparr> = Some exampleConn"
  by (simp add: connOf_def exampleConn_def)

lemmas example_start = exampleFactory_established [unfolded exampleFactory_def]

lemma exec_pipelined:
  "\<exists>s. exec pipelined exampleConn = Some s
     \<and> outPc s = OutDone \<and> inPc s = InDone
     \<and> storageCalls (trace s) =
         [SentRequest (flowKey fnvFastHash clientNetFlow clientTcpFlow) 0 3 ''GET /a'',
          SentRequest (flowKey fnvFastHash clientNetFlow clientTcpFlow) 1 4 ''GET /b'',
          ReceivedResponse (flowKey fnvFastHash clientNetFlow clientTcpFlow) 0 5
            \<lparr>parsed = 200, Request = ''GET /a''\<rparr>,
          ReceivedResponse (flowKey fnvFastHash clientNetFlow clientTcpFlow) 1 6
            \<lparr>parsed = 404, Request = ''GET /b''\<rparr>,
          CloseTCPConnection (flowKey fnvFastHash clientNetFlow clientTcpFlow) 7]"
  by (simp add: pipelined_def exampleConn_def step_def chan_send_def chan_recv_def make_chan_def
      logErr_def storageCalls_def)


subsection \<open>Pipelining\<close>

text \<open>
  C1. On the connection of two directions handed to the factory, whatever the schedule of
  the two readers: the i-th response stored (\<open>ReceivedResponse\<close>) was read against the i-th
  request sent on the channel and carries the sequence index i, and the \<open>SentRequest\<close> call
  for that request, once made, is the i-th such call and carries the index i as well.
\<close>

theorem pipelining_fifo:
  assumes "bidiStreams (New fh nf' tf' now' e' (New fh nf tf now e NewStreamFactory))
             (flowKey fh nf tf) = Some bds"
    and "connOf bds = Some s0"
    and "exec acts s0 = Some s"
    and "i < length (responsesReceived (trace s))"
  shows "i < length (pushed (trace s))
       \<and> responsesReceived (trace s) ! i = (of_nat i, pushed (trace s) ! i)
       \<and> (i < length (requestsSent (trace s))
            \<longrightarrow> requestsSent (trace s) ! i = (of_nat i, pushed (trace s) ! i))"
proof -
  let ?tr = "trace s"
  have inv: "conn_inv s"
    using exec_conn_inv [OF conn_inv_start [OF assms(1,2)] assms(3)] .
  have p1: "pushed ?tr = popped ?tr @ buf (chan s)"
    and p2: "popped ?tr = map snd (responsesReceived ?tr) @ held s"
    and p3: "map fst (responsesReceived ?tr) = map of_nat [0..<length (responsesReceived ?tr)]"
    and p4: "pushed ?tr = map snd (requestsSent ?tr) @ storing (outPc s)"
    and p5: "map fst (requestsSent ?tr) = map of_nat [0..<length (requestsSent ?tr)]"
    using inv unfolding conn_inv_def chan_inv_def in_inv_def out_inv_def by blast+
  have len: "i < length (pushed ?tr)"
    using assms(4) p1 p2 by simp
  have "pushed ?tr ! i = snd (responsesReceived ?tr ! i)"
    using assms(4) p1 p2 by (simp add: nth_append)
  moreover have "fst (responsesReceived ?tr ! i) = of_nat i"
  proof -
    have "map fst (responsesReceived ?tr) ! i = map of_nat [0..<length (responsesReceived ?tr)] ! i"
      using p3 by simp
    then show ?thesis using assms(4) by simp
  qed
  ultimately have r: "responsesReceived ?tr ! i = (of_nat i, pushed ?tr ! i)"
    by (simp add: prod_eq_iff)
  have "requestsSent ?tr ! i = (of_nat i, pushed ?tr ! i)" if lt: "i < length (requestsSent ?tr)"
  proof -
    have "pushed ?tr ! i = snd (requestsSent ?tr ! i)"
      using lt p4 by (simp add: nth_append)
    moreover have "fst (requestsSent ?tr ! i) = of_nat i"
    proof -
      have "map fst (requestsSent ?tr) ! i = map of_nat [0..<length (requestsSent ?tr)] ! i"
        using p5 by simp
      then show ?thesis using lt by simp
    qed
    ultimately show ?thesis by (simp add: prod_eq_iff)
  qed
  with len r show ?thesis by simp
qed

theorem pipelining_fifo_witness:
  "\<exists>s. exec pipelined exampleConn = Some s
     \<and> 1 < length (responsesReceived (trace s))
     \<and> 1 < length (pushed (trace s))
     \<and> responsesReceived (trace s) ! 1 = (1, pushed (trace s) ! 1)
     \<and> requestsSent (trace s) ! 1 = (1, pushed (trace s) ! 1)"
proof -
  obtain s where run: "exec pipelined exampleConn = Some s"
    using exec_pipelined by blast
  then have tr: "responsesReceived (trace s) = [(0, ''GET /a''), (1, ''GET /b'')]"
    and sent: "length (requestsSent (trace s)) = 2"
    by (simp_all add: pipelined_def exampleConn_def step_def chan_send_def chan_recv_def
        make_chan_def logErr_def, auto)
  have i: "1 < length (responsesReceived (trace s))" using tr by simp
  from pipelining_fifo [OF example_start connOf_example run i] sent i run
  show ?thesis by simp
qed

subsection \<open>The request body\<close>




subsection \<open>End of input and malformed messages\<close>



text \<open>
  C8. A malformed message. When \<open>http.ReadRequest\<close> or \<open>http.ReadResponse\<close> returns an
  error other than \<open>io.EOF\<close>, the reader calls \<open>DiscardBytesToFirstError\<close> on its buffer,
  then logs the error if and only if the stream's \<open>closed\<close> flag is not set, and is back at
  the top of its loop: the goroutine has not ended, and its sequence index and the request
  in progress are unchanged.
\<close>

theorem malformed_message_recovery:
  "(outPc s = OutRead \<and> x \<noteq> io_EOF \<longrightarrow>
      step (Out_ReadRequest (Inl x)) s =
        Some (s\<lparr>trace := trace s @ [DiscardBytesToFirstError], outPc := OutFailed x\<rparr>))
   \<and> (outPc s = OutFailed x \<longrightarrow>
      step Out_Report s =
        Some (s\<lparr>trace := trace s @ (if closed (hOut s) then []
                                       else [LogPrintln ''Error reading stream'' x]),
                 outPc := OutRead\<rparr>))
   \<and> (inPc s = InRead r \<and> x \<noteq> io_EOF \<longrightarrow>
      step (In_ReadResponse (Inl x)) s =
        Some (s\<lparr>trace := trace s @ [DiscardBytesToFirstError], inPc := InFailed x\<rparr>))
   \<and> (inPc s = InFailed x \<longrightarrow>
      step In_Report s =
        Some (s\<lparr>trace := trace s @ (if closed (hIn s) then []
                                       else [LogPrintln ''Error reading stream'' x]),
                 inPc := InPeek\<rparr>))"
  by (cases "outPc s"; cases "inPc s"; simp add: step_def)

theorem malformed_message_recovery_witness:
  "step (Out_ReadRequest (Inl (Err ''malformed HTTP request''))) exampleConn =
     Some (exampleConn\<lparr>trace := [DiscardBytesToFirstError],
                         outPc := OutFailed (Err ''malformed HTTP request'')\<rparr>)
   \<and> step Out_Report (exampleConn\<lparr>outPc := OutFailed (Err ''malformed HTTP request'')\<rparr>) =
     Some (exampleConn\<lparr>trace := [LogPrintln ''Error reading stream'' (Err ''malformed HTTP request'')],
                         outPc := OutRead\<rparr>)
   \<and> step (In_ReadResponse (Inl (Err ''malformed HTTP response'')))
        (exampleConn\<lparr>inPc := InRead ''GET /a''\<rparr>) =
     Some (exampleConn\<lparr>trace := [DiscardBytesToFirstError],
                         inPc := InFailed (Err ''malformed HTTP response'')\<rparr>)
   \<and> step In_Report (exampleConn\<lparr>hIn := (hIn exampleConn)\<lparr>closed := True\<rparr>,
                                   inPc := InFailed (Err ''malformed HTTP response'')\<rparr>) =
     Some (exampleConn\<lparr>hIn := (hIn exampleConn)\<lparr>closed := True\<rparr>, inPc := InPeek\<rparr>)"
  using malformed_message_recovery [where s = exampleConn
      and x = "Err ''malformed HTTP request''"]
    malformed_message_recovery [where s = "exampleConn\<lparr>outPc := OutFailed (Err ''malformed HTTP request'')\<rparr>"
      and x = "Err ''malformed HTTP request''"]
    malformed_message_recovery [where s = "exampleConn\<lparr>inPc := InRead ''GET /a''\<rparr>"
      and x = "Err ''malformed HTTP response''" and r = "''GET /a''"]
    malformed_message_recovery [where s = "exampleConn\<lparr>hIn := (hIn exampleConn)\<lparr>closed := True\<rparr>,
                                   inPc := InFailed (Err ''malformed HTTP response'')\<rparr>"
      and x = "Err ''malformed HTTP response''"]
  by (simp add: exampleConn_def)

subsection \<open>The bounded channel\<close>

text \<open>
  C9. The channel of in-flight requests has capacity 100, as \<open>New\<close> makes it: at every
  reachable state it holds at most 100 requests; \<open>runOut\<close> about to send is blocked exactly
  when it holds 100; while blocked, it stays blocked under every step of the connection
  except a receive by \<open>runIn\<close>, after which the send can be taken; and a state in which 100
  requests are buffered and the next send is blocked is reachable.
\<close>

theorem requests_channel_bounded:
  fixes s :: "('rq, 'rs) conn"
  assumes "bidiStreams (New fh nf' tf' now' e' (New fh nf tf now e NewStreamFactory))
             (flowKey fh nf tf) = Some bds"
    and "connOf bds = Some s0"
    and "exec acts s0 = Some s"
  shows "cap (chan s) = 100 \<and> length (buf (chan s)) \<le> 100
       \<and> (outPc s = OutSend r \<longrightarrow>
            (step Out_Send s = None \<longleftrightarrow> length (buf (chan s)) = 100))
       \<and> (outPc s = OutSend r \<and> length (buf (chan s)) = 100 \<and> step a s = Some s' \<longrightarrow>
            outPc s' = OutSend r
            \<and> (step Out_Send s' \<noteq> None \<longleftrightarrow> popped (trace s') \<noteq> popped (trace s)))
       \<and> (\<exists>acts' s'. exec acts' s0 = Some s' \<and> length (buf (chan s')) = 100
            \<and> outPc s' = OutSend r \<and> step Out_Send s' = None)"
proof -
  note start = connOf_registered [OF assms(1,2)]
  have inv: "conn_inv s"
    using exec_conn_inv [OF conn_inv_start [OF assms(1,2)] assms(3)] .
  have c: "cap (chan s) = 100"
    using exec_fixed [OF assms(3)] unfolding start by (simp add: fixed_def make_chan_def)
  have l: "length (buf (chan s)) \<le> 100"
    using inv c by (simp add: conn_inv_def chan_inv_def)
  have blocked: "step Out_Send s = None \<longleftrightarrow> length (buf (chan s)) = 100" if "outPc s = OutSend r"
    using that c l by (auto simp: step_def chan_send_def)
  have unblock: "outPc s' = OutSend r
            \<and> (step Out_Send s' \<noteq> None \<longleftrightarrow> popped (trace s') \<noteq> popped (trace s))"
    if "outPc s = OutSend r \<and> length (buf (chan s)) = 100 \<and> step a s = Some s'"
    using that c
    by (cases a)
       (auto simp: step_def chan_send_def chan_recv_def
             split: in_pc.splits sum.splits if_splits option.splits list.splits)
  have full: "\<exists>acts' s'. exec acts' s0 = Some s' \<and> length (buf (chan s')) = 100
            \<and> outPc s' = OutSend r \<and> step Out_Send s' = None"
  proof -
    define fill :: "('rq, 'rs) action list"
      where "fill = concat (replicate 100 [Out_ReadRequest (Inr r), Out_Send, Out_SentRequest 0 None])"
    have "outPc s0 = OutRead" and "length (buf (chan s0)) + 100 \<le> cap (chan s0)"
      unfolding start by (simp_all add: make_chan_def)
    from fill_channel [OF this, of r 0, folded fill_def] obtain s1 where
      run: "exec fill s0 = Some s1"
      and pc: "outPc s1 = OutRead" and len: "length (buf (chan s1)) = length (buf (chan s0)) + 100"
      and cp: "cap (chan s1) = cap (chan s0)"
      by blast
    define s2 where "s2 = s1\<lparr>trace := trace s1 @ [BodyClose (RequestBody r)], outPc := OutSend r\<rparr>"
    have "exec (fill @ [Out_ReadRequest (Inr r)]) s0 = exec [Out_ReadRequest (Inr r)] s1"
      unfolding exec_append by (simp only: run option.case)
    also have "\<dots> = Some s2"
      using pc by (simp add: step_def s2_def)
    finally have "exec (fill @ [Out_ReadRequest (Inr r)]) s0 = Some s2" .
    moreover have "length (buf (chan s2)) = 100"
      using len unfolding start by (simp add: make_chan_def s2_def)
    moreover have "outPc s2 = OutSend r"
      by (simp add: s2_def)
    moreover have "step Out_Send s2 = None"
      using len cp unfolding start by (simp add: step_def chan_send_def make_chan_def s2_def)
    ultimately show ?thesis by blast
  qed
  from c l blocked unblock full show ?thesis by blast
qed

theorem requests_channel_bounded_witness:
  "\<exists>s s'. exec hundredRequests exampleConn = Some s
     \<and> outPc s = OutSend ''GET /b'' \<and> length (buf (chan s)) = 100 \<and> cap (chan s) = 100
     \<and> step Out_Send s = None
     \<and> step (In_Peek None) s = Some s' \<and> step Out_Send s' = None
     \<and> (\<exists>acts' s''. exec acts' exampleConn = Some s'' \<and> length (buf (chan s'')) = 100
            \<and> outPc s'' = OutSend ''GET /b'' \<and> step Out_Send s'' = None)"
proof -
  define fill :: "(string, nat) action list"
    where "fill = concat (replicate 100 [Out_ReadRequest (Inr ''GET /a''), Out_Send, Out_SentRequest 3 None])"
  have "outPc exampleConn = OutRead" and "length (buf (chan exampleConn)) + 100 \<le> cap (chan exampleConn)"
    by (simp_all add: exampleConn_def make_chan_def)
  from fill_channel [OF this, of "''GET /a''" 3, folded fill_def] obtain s1 where
    run1: "exec fill exampleConn = Some s1" and pc1: "outPc s1 = OutRead"
    and len1: "length (buf (chan s1)) = length (buf (chan exampleConn)) + 100"
    and in1: "inPc s1 = inPc exampleConn"
    by blast
  define s where "s = s1\<lparr>trace := trace s1 @ [BodyClose (RequestBody ''GET /b'')], outPc := OutSend ''GET /b''\<rparr>"
  have "exec hundredRequests exampleConn = exec [Out_ReadRequest (Inr ''GET /b'')] s1"
    unfolding hundredRequests_def fill_def [symmetric] exec_append by (simp only: run1 option.case)
  also have "\<dots> = Some s"
    using pc1 by (simp add: step_def s_def)
  finally have run: "exec hundredRequests exampleConn = Some s" .
  have pc: "outPc s = OutSend ''GET /b''" and len: "length (buf (chan s)) = 100"
    and inpc: "inPc s = InPeek"
    using len1 in1 by (simp_all add: s_def exampleConn_def make_chan_def)
  define s' where "s' = s\<lparr>inPc := InFind\<rparr>"
  have st: "step (In_Peek None) s = Some s'"
    using pc inpc by (simp add: step_def s'_def)
  have same: "popped (trace s') = popped (trace s)" by (simp add: s'_def)
  from requests_channel_bounded [OF example_start connOf_example run,
      where r = "''GET /b''" and a = "In_Peek None" and s' = s'] run pc len st same
  show ?thesis by (simp del: exec.simps)
qed

subsection \<open>Errors of the storage layer\<close>

text \<open>
  C3, as the code has it. An error returned by \<open>OpenTCPConnection\<close>,
  \<open>CloseTCPConnection\<close>, \<open>SentRequest\<close> or \<open>ReceivedResponse\<close> is logged and the caller goes
  on as it does without the error: \<open>New\<close> attaches the stream and starts \<open>runIn\<close>, \<open>runOut\<close>
  ends after the close or advances its index and loops, \<open>runIn\<close> advances its index and
  loops. An error returned by \<open>IncomingTCPPacket\<close> or \<open>OutgoingTCPPacket\<close> is not logged:
  \<open>LogPacketSize\<close> panics with it.
\<close>

theorem storage_errors_logged_or_panic:
  "(bidiStreams h (flowKey fh nf tf) = Some bds \<longrightarrow>
      New fh nf tf now (Some x) h =
        (New fh nf tf now None h)
          \<lparr>ftrace := ftrace h @ [OpenTCPConnection (flowKey fh nf tf) now,
               LogPrintln ''Error storing connection'' x, Go (RunIn (flowKey fh nf tf))]\<rparr>)
   \<and> (outPc s = OutClosing \<longrightarrow>
      step (Out_CloseTCPConnection t (Some x)) s =
        Some (s\<lparr>trace := trace s @ [CloseTCPConnection (bidikey (hOut s)) t,
                    LogPrintln ''Error storing connection close timestamp'' x],
                 outPc := OutDone\<rparr>))
   \<and> (outPc s = OutStore r \<longrightarrow>
      step (Out_SentRequest t (Some x)) s =
        Some (s\<lparr>trace := trace s @ [SentRequest (bidikey (hOut s)) (outReqID s) t r,
                    LogPrintln ''Error storing request'' x],
                 outReqID := outReqID s + 1, outPc := OutRead\<rparr>))
   \<and> (inPc s = InStore resp \<longrightarrow>
      step (In_ReceivedResponse t (Some x)) s =
        Some (s\<lparr>trace := trace s @ [ReceivedResponse (bidikey (hIn s)) (inReqID s) t resp,
                    LogPrintln ''Error storing response'' x],
                 inReqID := inReqID s + 1,
                 hIn := (hIn s)\<lparr>reqInProgress := None\<rparr>, inPc := InPeek\<rparr>))
   \<and> (NetworkLayer p = Some nf \<and> TransportLayer p = Some tf
       \<and> bidiStreams h (flowKey fh nf tf) = Some bds \<and> bds_in bds = Some inb
       \<and> bds_out bds = Some outb \<and> ipv4Layer p = Some ip \<and> tcpLayer p = Some tc \<longrightarrow>
      LogPacketSize fh p (Some x) h =
        (Some (Panic x),
         h\<lparr>ftrace := ftrace h @
            [if netFlow inb = nf
             then IncomingTCPPacket (flowKey fh nf tf) (payloadLength ip tc)
             else OutgoingTCPPacket (flowKey fh nf tf) (payloadLength ip tc)]\<rparr>))"
  by (simp add: New_def Let_def step_def logErr_def LogPacketSize_def)

theorem storage_errors_logged_or_panic_witness:
  "ftrace (New fnvFastHash (Reverse clientNetFlow) (Reverse clientTcpFlow) 2
             (Some (Err ''database is locked''))
             (New fnvFastHash clientNetFlow clientTcpFlow 1 None
                (NewStreamFactory :: (string, nat) httpStreamFactory))) =
     [Go (RunOut (flowKey fnvFastHash clientNetFlow clientTcpFlow)),
      OpenTCPConnection (flowKey fnvFastHash clientNetFlow clientTcpFlow) 2,
      LogPrintln ''Error storing connection'' (Err ''database is locked''),
      Go (RunIn (flowKey fnvFastHash clientNetFlow clientTcpFlow))]
   \<and> step (Out_CloseTCPConnection 7 (Some (Err ''database is locked'')))
        (exampleConn\<lparr>outPc := OutClosing\<rparr>) =
       Some (exampleConn\<lparr>trace :=
                 [CloseTCPConnection (flowKey fnvFastHash clientNetFlow clientTcpFlow) 7,
                  LogPrintln ''Error storing connection close timestamp''
                    (Err ''database is locked'')],
               outPc := OutDone\<rparr>)
   \<and> step (Out_SentRequest 3 (Some (Err ''database is locked'')))
        (exampleConn\<lparr>outPc := OutStore ''GET /a''\<rparr>) =
       Some (exampleConn\<lparr>trace :=
                 [SentRequest (flowKey fnvFastHash clientNetFlow clientTcpFlow) 0 3 ''GET /a'',
                  LogPrintln ''Error storing request'' (Err ''database is locked'')],
               outReqID := 1, outPc := OutRead\<rparr>)
   \<and> step (In_ReceivedResponse 5 (Some (Err ''database is locked'')))
        (exampleConn\<lparr>inPc := InStore \<lparr>parsed = 200, Request = ''GET /a''\<rparr>\<rparr>) =
       Some (exampleConn\<lparr>trace :=
                 [ReceivedResponse (flowKey fnvFastHash clientNetFlow clientTcpFlow) 0 5
                    \<lparr>parsed = 200, Request = ''GET /a''\<rparr>,
                  LogPrintln ''Error storing response'' (Err ''database is locked'')],
               inReqID := 1, inPc := InPeek\<rparr>)
   \<and> fst (LogPacketSize fnvFastHash responsePacket (Some (Err ''database is locked''))
          exampleFactory) = Some (Panic (Err ''database is locked''))"
proof -
  let ?k = "flowKey fnvFastHash clientNetFlow clientTcpFlow"
  let ?x = "Err ''database is locked''"
  let ?h0 = "NewStreamFactory :: (string, nat) httpStreamFactory"
  let ?h1 = "New fnvFastHash clientNetFlow clientTcpFlow 1 None ?h0"
  let ?inb = "\<lparr>netFlow = Reverse clientNetFlow, tcpFlow = Reverse clientTcpFlow,
          bidikey = ?k, closed = False, reqInProgress = None :: string option\<rparr>"
  let ?outb = "\<lparr>netFlow = clientNetFlow, tcpFlow = clientTcpFlow,
          bidikey = ?k, closed = False, reqInProgress = None :: string option\<rparr>"
  let ?bds1 = "\<lparr>key = ?k, bds_in = None, bds_out = Some ?outb, requests = make_chan 100\<rparr>"
  let ?bds = "\<lparr>key = ?k, bds_in = Some ?inb, bds_out = Some ?outb, requests = make_chan 100\<rparr>"
  have h1: "bidiStreams ?h1 (flowKey fnvFastHash (Reverse clientNetFlow) (Reverse clientTcpFlow))
              = Some ?bds1"
    and t1: "ftrace ?h1 = [Go (RunOut ?k)]"
    by (simp_all add: New_def Let_def NewStreamFactory_def flowKey_Reverse_fnv)
  have a: "ftrace (New fnvFastHash (Reverse clientNetFlow) (Reverse clientTcpFlow) 2 (Some ?x) ?h1) =
     [Go (RunOut ?k), OpenTCPConnection ?k 2, LogPrintln ''Error storing connection'' ?x,
      Go (RunIn ?k)]"
    using storage_errors_logged_or_panic [where h = ?h1 and fh = fnvFastHash
        and nf = "Reverse clientNetFlow" and tf = "Reverse clientTcpFlow" and bds = ?bds1
        and now = 2 and x = ?x, THEN conjunct1] h1 t1
    by (simp add: flowKey_Reverse_fnv)
  have b: "step (Out_CloseTCPConnection 7 (Some ?x)) (exampleConn\<lparr>outPc := OutClosing\<rparr>) =
       Some (exampleConn\<lparr>trace := [CloseTCPConnection ?k 7,
                  LogPrintln ''Error storing connection close timestamp'' ?x],
               outPc := OutDone\<rparr>)"
    using storage_errors_logged_or_panic [where s = "exampleConn\<lparr>outPc := OutClosing\<rparr>"
        and t = 7 and x = ?x, THEN conjunct2, THEN conjunct1]
    by (simp add: exampleConn_def)
  have c: "step (Out_SentRequest 3 (Some ?x)) (exampleConn\<lparr>outPc := OutStore ''GET /a''\<rparr>) =
       Some (exampleConn\<lparr>trace := [SentRequest ?k 0 3 ''GET /a'',
                  LogPrintln ''Error storing request'' ?x],
               outReqID := 1, outPc := OutRead\<rparr>)"
    using storage_errors_logged_or_panic [where s = "exampleConn\<lparr>outPc := OutStore ''GET /a''\<rparr>"
        and t = 3 and x = ?x and r = "''GET /a''", THEN conjunct2, THEN conjunct2, THEN conjunct1]
    by (simp add: exampleConn_def)
  have d: "step (In_ReceivedResponse 5 (Some ?x))
        (exampleConn\<lparr>inPc := InStore \<lparr>parsed = 200, Request = ''GET /a''\<rparr>\<rparr>) =
       Some (exampleConn\<lparr>trace := [ReceivedResponse ?k 0 5 \<lparr>parsed = 200, Request = ''GET /a''\<rparr>,
                  LogPrintln ''Error storing response'' ?x],
               inReqID := 1, inPc := InPeek\<rparr>)"
    using storage_errors_logged_or_panic [where
        s = "exampleConn\<lparr>inPc := InStore \<lparr>parsed = 200, Request = ''GET /a''\<rparr>\<rparr>"
        and t = 5 and x = ?x and resp = "\<lparr>parsed = 200, Request = ''GET /a''\<rparr>",
        THEN conjunct2, THEN conjunct2, THEN conjunct2, THEN conjunct1]
    by (simp add: exampleConn_def)
  have e: "fst (LogPacketSize fnvFastHash responsePacket (Some ?x) exampleFactory)
             = Some (Panic ?x)"
    using storage_errors_logged_or_panic [where h = exampleFactory and fh = fnvFastHash
        and p = responsePacket and nf = "Reverse clientNetFlow" and tf = "Reverse clientTcpFlow"
        and bds = ?bds and inb = ?inb and outb = ?outb
        and ip = "\<lparr>Length = 1500, IHL = 5\<rparr>" and tc = "\<lparr>DataOffset = 8\<rparr>" and x = ?x,
        THEN conjunct2, THEN conjunct2, THEN conjunct2, THEN conjunct2]
    by (simp add: exampleFactory_established responsePacket_def flowKey_Reverse_fnv)
  from a b c d e show ?thesis by blast
qed

text \<open>A storage error on a packet of an established connection ends the call in a panic.\<close>

theorem storage_error_is_fatal_counterexample:
  "LogPacketSize fnvFastHash requestPacket (Some (Err ''database is locked'')) exampleFactory =
     (Some (Panic (Err ''database is locked'')),
      exampleFactory\<lparr>ftrace := ftrace exampleFactory @
        [OutgoingTCPPacket (flowKey fnvFastHash clientNetFlow clientTcpFlow) 100]\<rparr>)"
  using Reverse_clientNetFlow
  by (simp add: LogPacketSize_def Let_def exampleFactory_established requestPacket_def
      payloadLength_def)

end
